theory Spec2Isabelle
  imports Complex_Main "HOL-Library.Sublist" "HOL-Library.Word"
begin

section \<open>Remote call executor: \<open>runWithRetry\<close> (services/geminiService.ts)\<close>

text \<open>
  JavaScript strings are modelled as \<^typ>\<open>string\<close> over ASCII. \<open>toLowerCase\<close> maps the
  letters \<open>A\<close>..\<open>Z\<close> to \<open>a\<close>..\<open>z\<close> and leaves every other character alone.
\<close>

definition toLowerChar :: "char \<Rightarrow> char" where
  "toLowerChar c =
     (case map_of (zip ''ABCDEFGHIJKLMNOPQRSTUVWXYZ'' ''abcdefghijklmnopqrstuvwxyz'') c of
        None \<Rightarrow> c
      | Some l \<Rightarrow> l)"

definition toLowerCase :: "string \<Rightarrow> string" where
  "toLowerCase s = map toLowerChar s"

text \<open>\<open>String.prototype.includes\<close>: the search string occurs at some position.\<close>

fun str_includes :: "string \<Rightarrow> string \<Rightarrow> bool" where
  "str_includes [] search = (search = [])"
| "str_includes (c # cs) search = (prefix search (c # cs) \<or> str_includes cs search)"

text \<open>
  A value caught by \<open>catch (error: any)\<close>. \<open>ThrownNullish\<close> is a thrown \<open>null\<close> or
  \<open>undefined\<close>, on which reading \<open>error.message\<close> itself raises a TypeError.
  \<open>ThrownObject m j\<close> is any other value: \<open>m\<close> is its \<open>message\<close> property when that is a
  string (\<open>None\<close> when it is absent) and \<open>j\<close> is what \<open>JSON.stringify(error)\<close> returns
  (\<open>None\<close> for \<open>undefined\<close>).
\<close>

datatype js_error = ThrownNullish | ThrownObject "string option" "string option"

text \<open>
  \<open>(error.message || JSON.stringify(error)).toLowerCase()\<close>. The empty string is falsy,
  so an empty message falls through to the serialisation. \<open>None\<close> stands for the
  TypeError raised when the expression cannot be evaluated.
\<close>

fun errorMsg :: "js_error \<Rightarrow> string option" where
  "errorMsg ThrownNullish = None"
| "errorMsg (ThrownObject m j) =
     (case (if m \<noteq> None \<and> m \<noteq> Some [] then m else j) of
        None \<Rightarrow> None
      | Some s \<Rightarrow> Some (toLowerCase s))"

definition isTransient :: "string \<Rightarrow> bool" where
  "isTransient errorMsg' =
     (str_includes errorMsg' ''503'' \<or> str_includes errorMsg' ''overloaded'' \<or>
      str_includes errorMsg' ''unavailable'' \<or> str_includes errorMsg' ''quota'' \<or>
      str_includes errorMsg' ''429'')"

text \<open>
  What a promise is rejected with, or a call fails with: a caught value thrown again
  (\<open>Rejected\<close>), or an error object raised by the platform itself. \<open>runWithRetry\<close>
  rejects with a caught value or with the TypeError raised inside its \<open>catch\<close> block; the
  other three are raised by typed arrays (RangeError), by \<open>atob\<close> (InvalidCharacterError)
  and by the audio context (NotSupportedError).
\<close>

datatype rejection =
  Rejected js_error | TypeError | RangeError | InvalidCharacterError | NotSupportedError

text \<open>
  The observable effects of one run, in order: each invocation of the operation and each
  \<open>sleep(delay)\<close> with its delay in milliseconds.
\<close>

datatype event = Invoked | Slept nat

fun invocations :: "event list \<Rightarrow> nat" where
  "invocations [] = 0"
| "invocations (Invoked # es) = Suc (invocations es)"
| "invocations (Slept d # es) = invocations es"

fun totalSleep :: "event list \<Rightarrow> nat" where
  "totalSleep [] = 0"
| "totalSleep (Invoked # es) = totalSleep es"
| "totalSleep (Slept d # es) = d + totalSleep es"

text \<open>
  The operation is a zero-argument function whose outcome may differ from call to call:
  \<open>operation n\<close> is the outcome of the call made after \<open>n\<close> earlier calls, \<open>Inl\<close> a thrown
  value and \<open>Inr\<close> the resolved value. \<open>retries\<close> and \<open>baseDelay\<close> are natural numbers
  (the callers pass none, so the defaults 3 and 1500 apply). The \<open>for\<close> loop is the
  recursion on \<open>i\<close>; \<open>lastError\<close> is \<open>None\<close> while the variable is \<open>undefined\<close>.
\<close>

function runWithRetry_loop ::
  "(nat \<Rightarrow> js_error + 'a) \<Rightarrow> nat \<Rightarrow> nat \<Rightarrow> nat \<Rightarrow> js_error option \<Rightarrow> event list
     \<Rightarrow> (rejection + 'a) \<times> event list" where
  "runWithRetry_loop operation retries baseDelay i lastError tr =
     (if i < retries then
        (case operation (invocations tr) of
           Inr v \<Rightarrow> (Inr v, tr @ [Invoked])
         | Inl error \<Rightarrow>
             (case errorMsg error of
                None \<Rightarrow> (Inl TypeError, tr @ [Invoked])
              | Some msg \<Rightarrow>
                  if isTransient msg \<and> int i < int retries - 1
                  then runWithRetry_loop operation retries baseDelay (i + 1) (Some error)
                         (tr @ [Invoked, Slept (baseDelay * 2 ^ i)])
                  else (Inl (Rejected error), tr @ [Invoked])))
      else (Inl (Rejected (case lastError of None \<Rightarrow> ThrownNullish | Some e \<Rightarrow> e)), tr))"
  by pat_completeness auto
termination
  by (relation "measure (\<lambda>(operation, retries, baseDelay, i, lastError, tr). retries - i)") auto

declare runWithRetry_loop.simps [simp del]

definition runWithRetry ::
  "(nat \<Rightarrow> js_error + 'a) \<Rightarrow> nat \<Rightarrow> nat \<Rightarrow> (rejection + 'a) \<times> event list" where
  "runWithRetry operation retries baseDelay =
     runWithRetry_loop operation retries baseDelay 0 None []"

text \<open>
  Vocabulary for stating the executor's contract: an error is transient-classified when
  the loop's \<open>isTransient\<close> flag is set for it, and permanent-classified when the flag is
  computed and is not set. \<open>backoff baseDelay i k\<close> is the trace of the failed attempts
  \<open>i\<close>..\<open>k - 1\<close>, each followed by its sleep.
\<close>

definition transientError :: "js_error \<Rightarrow> bool" where
  "transientError e = (case errorMsg e of None \<Rightarrow> False | Some msg \<Rightarrow> isTransient msg)"

definition permanentError :: "js_error \<Rightarrow> bool" where
  "permanentError e = (case errorMsg e of None \<Rightarrow> False | Some msg \<Rightarrow> \<not> isTransient msg)"

definition transientAt :: "(nat \<Rightarrow> js_error + 'a) \<Rightarrow> nat \<Rightarrow> bool" where
  "transientAt operation j = (case operation j of Inr v \<Rightarrow> False | Inl e \<Rightarrow> transientError e)"

definition backoff :: "nat \<Rightarrow> nat \<Rightarrow> nat \<Rightarrow> event list" where
  "backoff baseDelay i k = concat (map (\<lambda>j. [Invoked, Slept (baseDelay * 2 ^ j)]) [i..<k])"




text \<open>
  Operations used as concrete inputs: one that throws \<open>e\<close> on its first \<open>k\<close> calls and
  resolves to \<open>v\<close> afterwards, and one that throws \<open>e\<close> on every call.
\<close>

definition failsThenResolves :: "nat \<Rightarrow> js_error \<Rightarrow> 'a \<Rightarrow> nat \<Rightarrow> js_error + 'a" where
  "failsThenResolves k e v n = (if n < k then Inl e else Inr v)"

definition alwaysFails :: "js_error \<Rightarrow> nat \<Rightarrow> js_error + 'a" where
  "alwaysFails e n = Inl e"

section \<open>Audio assembly: \<open>concatenateRawAudio\<close> and \<open>decodeAudioData\<close> (services/audioUtils.ts)\<close>

type_synonym byte = "8 word"

text \<open>
  \<open>result.set(seg, offset)\<close> on a \<open>Uint8Array\<close>: a RangeError when the source does not fit
  at the offset, otherwise the bytes at \<open>offset\<close>.. are overwritten.
\<close>

definition typed_array_set :: "byte list \<Rightarrow> byte list \<Rightarrow> nat \<Rightarrow> rejection + byte list" where
  "typed_array_set result seg offset =
     (if offset + length seg > length result then Inl RangeError
      else Inr (take offset result @ seg @ drop (offset + length seg) result))"

text \<open>
  The body of \<open>segments.forEach((seg, i) => ...)\<close>, with the captured variables \<open>result\<close> and
  \<open>offset\<close> passed along; \<open>n\<close> is \<open>segments.length\<close>.
\<close>

fun forEach_segment ::
  "byte list list \<Rightarrow> nat \<Rightarrow> nat \<Rightarrow> nat \<Rightarrow> byte list \<Rightarrow> nat \<Rightarrow> rejection + byte list" where
  "forEach_segment [] i n silenceLength result offset = Inr result"
| "forEach_segment (seg # rest) i n silenceLength result offset =
     (case typed_array_set result seg offset of
        Inl e \<Rightarrow> Inl e
      | Inr result' \<Rightarrow>
          forEach_segment rest (i + 1) n silenceLength result'
            (if int i < int n - 1 then offset + length seg + silenceLength
             else offset + length seg))"

text \<open>
  \<open>silenceDurationSec\<close> and \<open>sampleRate\<close> are natural numbers here (the call site passes 2
  and the default 24000). \<open>new Uint8Array(totalLength)\<close> is zero-filled.
\<close>

definition concatenateRawAudio ::
  "byte list list \<Rightarrow> nat \<Rightarrow> nat \<Rightarrow> rejection + byte list" where
  "concatenateRawAudio segments silenceDurationSec sampleRate =
     (let silenceLength = silenceDurationSec * sampleRate * 2;
          totalLength = foldl (\<lambda>acc seg. acc + length seg) 0 segments +
                        nat (max 0 (int (length segments) - 1)) * silenceLength;
          result = replicate totalLength (0 :: byte)
      in forEach_segment segments 0 (length segments) silenceLength result 0)"

text \<open>
  \<open>new Int16Array(data.buffer)\<close>: a RangeError when the byte length is odd, otherwise one
  signed 16-bit sample for each pair of bytes, low byte first.
\<close>

definition int16_of_bytes :: "byte \<Rightarrow> byte \<Rightarrow> int" where
  "int16_of_bytes lo hi =
     (let u = uint lo + 256 * uint hi in if u < 32768 then u else u - 65536)"

fun int16_pairs :: "byte list \<Rightarrow> int list" where
  "int16_pairs (lo # hi # rest) = int16_of_bytes lo hi # int16_pairs rest"
| "int16_pairs rest = []"

definition Int16Array :: "byte list \<Rightarrow> rejection + int list" where
  "Int16Array buffer =
     (if length buffer mod 2 \<noteq> 0 then Inl RangeError else Inr (int16_pairs buffer))"

text \<open>
  \<open>ctx.createBuffer(1, frameCount, sampleRate)\<close> belongs to the browser, not to the
  repository. It is modelled after the Web Audio interface: a buffer of no frames is
  refused with a NotSupportedError, otherwise the one channel holds \<open>frameCount\<close> zeros.
\<close>

definition createBuffer :: "nat \<Rightarrow> rejection + real list" where
  "createBuffer frameCount =
     (if frameCount = 0 then Inl NotSupportedError else Inr (replicate frameCount 0))"

text \<open>
  \<open>decodeAudioData\<close> with its defaults, one channel at 24000 Hz, as both callers use it.
  The inner loop assigns \<open>channelData[i] = dataInt16[i] / 32768.0\<close> for \<open>i < frameCount\<close>,
  where \<open>frameCount\<close> is the length of \<open>dataInt16\<close>, so every read is in range.
  The quotient of a 16-bit integer by \<open>2 ^ 15\<close> is exact in binary floating point, in double
  and in single precision, so the stored sample is this real number.
\<close>

function fill_channel :: "int list \<Rightarrow> nat \<Rightarrow> nat \<Rightarrow> real list \<Rightarrow> real list" where
  "fill_channel dataInt16 i frameCount channelData =
     (if i < frameCount
      then fill_channel dataInt16 (i + 1) frameCount
             (channelData[i := real_of_int (dataInt16 ! i) / 32768])
      else channelData)"
  by pat_completeness auto
termination
  by (relation "measure (\<lambda>(dataInt16, i, frameCount, channelData). frameCount - i)") auto

declare fill_channel.simps [simp del]

definition decodeAudioData :: "byte list \<Rightarrow> rejection + real list" where
  "decodeAudioData data =
     (case Int16Array data of
        Inl e \<Rightarrow> Inl e
      | Inr dataInt16 \<Rightarrow>
          (let frameCount = length dataInt16 in
           case createBuffer frameCount of
             Inl e \<Rightarrow> Inl e
           | Inr channelData \<Rightarrow> Inr (fill_channel dataInt16 0 frameCount channelData)))"

text \<open>
  The layout the specification describes: the segments in order, \<open>gap\<close> zero bytes between
  consecutive segments, none after the last. \<open>segmentOffset\<close> is where segment \<open>i\<close> starts.
\<close>

fun assembled :: "nat \<Rightarrow> byte list list \<Rightarrow> byte list" where
  "assembled gap [] = []"
| "assembled gap [seg] = seg"
| "assembled gap (seg # rest) = seg @ replicate gap 0 @ assembled gap rest"

definition segmentOffset :: "nat \<Rightarrow> byte list list \<Rightarrow> nat \<Rightarrow> nat" where
  "segmentOffset gap segments i = sum_list (map length (take i segments)) + i * gap"

section \<open>Test content and scoring (types.ts, ReadingModule.tsx, ListeningModule.tsx)\<close>

text \<open>
  The interfaces of types.ts. Field names that are reserved words or that occur in
  several interfaces carry the interface as a suffix.
\<close>

record Question =
  id_q :: string
  text_q :: string
  options :: "string list"
  correctAnswerIndex :: int

record TestPart =
  id_p :: string
  type_p :: string
  title :: string
  content_p :: string
  questions :: "Question list"

record ReadingTestContent =
  parts_r :: "TestPart list"

record ListeningTestContent =
  parts_l :: "TestPart list"
  fullScript :: string
  audioBase64 :: "string option"

record WritingTask =
  topic_w :: string
  instructions_w :: string

record SpeakingTask =
  topic_s :: string
  instructions_s :: string










text \<open>A content of one part with three questions, and answers with one of them right.\<close>

definition sampleQuestion :: "string \<Rightarrow> int \<Rightarrow> Question" where
  "sampleQuestion i c = \<lparr>id_q = i, text_q = ''?'', options = [''a'', ''b'', ''c''],
     correctAnswerIndex = c\<rparr>"

definition sampleParts :: "TestPart list" where
  "sampleParts = [\<lparr>id_p = ''p1'', type_p = ''Email'', title = ''T'', content_p = ''Hallo'',
     questions = [sampleQuestion ''q1'' 0, sampleQuestion ''q2'' 1, sampleQuestion ''q3'' 2]\<rparr>]"


section \<open>Session orchestrator: the \<open>App\<close> component (App.tsx)\<close>

datatype AppState =
  HOME | LOADING | TEST_READING | TEST_LISTENING | TEST_WRITING | TEST_SPEAKING
  | USER_DETAILS_FORM | RESULTS

record Scores =
  reading :: real
  listening :: real
  writing :: real
  speaking :: real

record UserDetails =
  name :: string
  phone :: string
  language :: string

text \<open>The state held by the hooks of \<open>App\<close>; a preloaded slot is \<open>None\<close> while it is \<open>null\<close>.\<close>

record App =
  state :: AppState
  scores :: Scores
  userDetails :: UserDetails
  isSubmitting :: bool
  formError :: "string option"
  preloadedReading :: "ReadingTestContent option"
  preloadedListening :: "(ListeningTestContent \<times> string list) option"
  preloadedWriting :: "WritingTask option"
  preloadedSpeaking :: "SpeakingTask option"

definition initialApp :: App where
  "initialApp =
     \<lparr>state = HOME,
      scores = \<lparr>reading = 0, listening = 0, writing = 0, speaking = 0\<rparr>,
      userDetails = \<lparr>name = '''', phone = '''', language = ''Malayalam''\<rparr>,
      isSubmitting = False,
      formError = None,
      preloadedReading = None,
      preloadedListening = None,
      preloadedWriting = None,
      preloadedSpeaking = None\<rparr>"

text \<open>\<open>module: keyof typeof scores\<close>, and the update \<open>{ ...prev, [module]: score }\<close>.\<close>

datatype module_key = reading_key | listening_key | writing_key | speaking_key

fun setScore :: "module_key \<Rightarrow> real \<Rightarrow> Scores \<Rightarrow> Scores" where
  "setScore reading_key score prev = prev\<lparr>reading := score\<rparr>"
| "setScore listening_key score prev = prev\<lparr>listening := score\<rparr>"
| "setScore writing_key score prev = prev\<lparr>writing := score\<rparr>"
| "setScore speaking_key score prev = prev\<lparr>speaking := score\<rparr>"

definition updateScore :: "module_key \<Rightarrow> real \<Rightarrow> App \<Rightarrow> App" where
  "updateScore module' score a =
     (let a0 = a\<lparr>scores := setScore module' score (scores a)\<rparr>;
          a1 = (if module' = reading_key then a0\<lparr>state := TEST_LISTENING\<rparr> else a0);
          a2 = (if module' = listening_key then a1\<lparr>state := TEST_WRITING\<rparr> else a1);
          a3 = (if module' = writing_key then a2\<lparr>state := TEST_SPEAKING\<rparr> else a2);
          a4 = (if module' = speaking_key then a3\<lparr>state := USER_DETAILS_FORM\<rparr> else a3)
      in a4)"



text \<open>The click handlers: "Start Mock Test" on the home page and "Take Test Again".\<close>

definition startMockTest :: "App \<Rightarrow> App" where
  "startMockTest a = a\<lparr>state := TEST_READING\<rparr>"

definition restart :: "App \<Rightarrow> App" where
  "restart a =
     a\<lparr>scores := \<lparr>reading = 0, listening = 0, writing = 0, speaking = 0\<rparr>,
       userDetails := \<lparr>name = '''', phone = '''', language = ''Malayalam''\<rparr>,
       state := HOME,
       preloadedReading := None,
       preloadedListening := None,
       preloadedWriting := None,
       preloadedSpeaking := None\<rparr>"



text \<open>
  The \<open>onComplete\<close> prop of the module mounted in the current state: each module reports
  through \<open>updateScore\<close> with its own key. No module, hence no callback, in other states.
\<close>

fun onComplete :: "App \<Rightarrow> real \<Rightarrow> App option" where
  "onComplete a s =
     (case state a of
        TEST_READING \<Rightarrow> Some (updateScore reading_key s a)
      | TEST_LISTENING \<Rightarrow> Some (updateScore listening_key s a)
      | TEST_WRITING \<Rightarrow> Some (updateScore writing_key s a)
      | TEST_SPEAKING \<Rightarrow> Some (updateScore speaking_key s a)
      | _ \<Rightarrow> None)"

text \<open>
  The preloading effect. \<open>preloadingEffect\<close> lists the background fetches it starts in a
  given state of the hooks. Each fetch is a promise with \<open>.then(setPreloaded...)\<close> and
  \<open>.catch(e => console.error(...))\<close>: the four \<open>...Settled\<close> functions are what happens when
  the promise settles, on the hooks and on the console.
\<close>

datatype prefetch = FetchReading | FetchListening | FetchWriting | FetchSpeaking

definition preloadingEffect :: "App \<Rightarrow> prefetch list" where
  "preloadingEffect a =
     (if state a = HOME \<and> preloadedReading a = None then [FetchReading] else []) @
     (if state a = TEST_READING \<and> preloadedListening a = None then [FetchListening] else []) @
     (if state a = TEST_LISTENING \<and> preloadedWriting a = None then [FetchWriting] else []) @
     (if state a = TEST_WRITING \<and> preloadedSpeaking a = None then [FetchSpeaking] else [])"






text \<open>
  Reporting a list of scores, each through the callback of the module mounted at that
  moment; the result is the list of the states of the hooks passed through, \<open>None\<close> if at
  some point no module is mounted.
\<close>

fun reportAll :: "App \<Rightarrow> real list \<Rightarrow> App list option" where
  "reportAll a [] = Some [a]"
| "reportAll a (s # ss) =
     (case onComplete a s of
        None \<Rightarrow> None
      | Some a' \<Rightarrow> map_option (Cons a) (reportAll a' ss))"

section \<open>Listening fetch (services/geminiService.ts)\<close>

text \<open>
  The content provider is outside the repository. For the audio of part \<open>index\<close>,
  \<open>tts index n\<close> is what the \<open>n\<close>-th call of \<open>ai.models.generateContent\<close> does: it throws
  (\<open>Inl\<close>) or answers, and \<open>audioData\<close> read from the answer is a string or \<open>undefined\<close>
  (\<open>None\<close>). The prompt text only reaches the provider, so it is not a parameter here.
  \<open>new Error("No audio data")\<close> has that message and is serialised as \<open>{}\<close>.
\<close>

definition noAudioData :: js_error where
  "noAudioData = ThrownObject (Some ''No audio data'') (Some ''{}'')"

definition generateAudioFromScript ::
  "(nat \<Rightarrow> js_error + string option) \<Rightarrow> rejection + string" where
  "generateAudioFromScript remote =
     fst (runWithRetry
            (\<lambda>n. case remote n of
                    Inl e \<Rightarrow> Inl e
                  | Inr audioData \<Rightarrow>
                      (case audioData of
                         None \<Rightarrow> Inl noAudioData
                       | Some d \<Rightarrow> if d = [] then Inl noAudioData else Inr d))
            3 1500)"

text \<open>
  \<open>generateListeningTestScript\<close> wraps one operation (the provider call, \<open>JSON.parse\<close> and the
  \<open>fullScript\<close> assignment) in \<open>runWithRetry\<close>; \<open>scriptOp n\<close> is the outcome of its \<open>n\<close>-th run.
\<close>

definition generateListeningTestScript ::
  "(nat \<Rightarrow> js_error + ListeningTestContent) \<Rightarrow> rejection + ListeningTestContent" where
  "generateListeningTestScript scriptOp = fst (runWithRetry scriptOp 3 1500)"

text \<open>
  \<open>Promise.all\<close> over promises that all settle, each given with the time at which it
  settles: fulfilled with the values in the order of the list when none is rejected,
  otherwise rejected with the reason of the promise rejected first (the earlier in the
  list when two times are equal).
\<close>

fun firstRejection :: "(nat \<times> (rejection + 'a)) list \<Rightarrow> (nat \<times> rejection) option" where
  "firstRejection [] = None"
| "firstRejection ((t, Inr v) # rest) = firstRejection rest"
| "firstRejection ((t, Inl e) # rest) =
     (case firstRejection rest of
        None \<Rightarrow> Some (t, e)
      | Some (t', e') \<Rightarrow> if t' < t then Some (t', e') else Some (t, e))"

fun fulfilledValues :: "(nat \<times> (rejection + 'a)) list \<Rightarrow> 'a list" where
  "fulfilledValues [] = []"
| "fulfilledValues ((t, Inr v) # rest) = v # fulfilledValues rest"
| "fulfilledValues ((t, Inl e) # rest) = fulfilledValues rest"

definition Promise_all :: "(nat \<times> (rejection + 'a)) list \<Rightarrow> rejection + 'a list" where
  "Promise_all promises =
     (case firstRejection promises of
        Some (t, e) \<Rightarrow> Inl e
      | None \<Rightarrow> Inr (fulfilledValues promises))"

text \<open>
  \<open>Promise.all(content.parts.map((part, index) => generateAudioFromScript(...)))\<close>, which
  both \<open>preloadListeningTest\<close> and \<open>initTest\<close> await; \<open>settleTime index\<close> is when the promise
  of part \<open>index\<close> settles.
\<close>

definition synthesizeParts ::
  "(nat \<Rightarrow> nat \<Rightarrow> js_error + string option) \<Rightarrow> (nat \<Rightarrow> nat) \<Rightarrow> ListeningTestContent
     \<Rightarrow> rejection + string list" where
  "synthesizeParts tts settleTime content =
     Promise_all (map (\<lambda>index. (settleTime index, generateAudioFromScript (tts index)))
                    [0..<length (parts_l content)])"

definition preloadListeningTest ::
  "(nat \<Rightarrow> js_error + ListeningTestContent) \<Rightarrow> (nat \<Rightarrow> nat \<Rightarrow> js_error + string option)
     \<Rightarrow> (nat \<Rightarrow> nat) \<Rightarrow> rejection + ListeningTestContent \<times> string list" where
  "preloadListeningTest scriptOp tts settleTime =
     (case generateListeningTestScript scriptOp of
        Inl e \<Rightarrow> Inl e
      | Inr content \<Rightarrow>
          (case synthesizeParts tts settleTime content of
             Inl e \<Rightarrow> Inl e
           | Inr audioParts \<Rightarrow> Inr (content, audioParts)))"

section \<open>The stage components (components/modules)\<close>

text \<open>
  \<open>e.message || fallback\<close> in a \<open>catch\<close> block: \<open>None\<close> when reading the message itself raises.
  The message of an error object raised by the platform is some non-empty text chosen by
  the platform; the name of the error stands for it.
\<close>

fun messageOr :: "rejection \<Rightarrow> string \<Rightarrow> string option" where
  "messageOr (Rejected ThrownNullish) fallback = None"
| "messageOr (Rejected (ThrownObject m j)) fallback =
     Some (case m of None \<Rightarrow> fallback | Some s \<Rightarrow> if s = [] then fallback else s)"
| "messageOr TypeError fallback = Some ''TypeError''"
| "messageOr RangeError fallback = Some ''RangeError''"
| "messageOr InvalidCharacterError fallback = Some ''InvalidCharacterError''"
| "messageOr NotSupportedError fallback = Some ''NotSupportedError''"

text \<open>
  The hooks and refs of ListeningModule that loading touches. \<open>audioContextRef\<close> records
  whether the context has been created, \<open>audioBufferRef\<close> holds the decoded channel.
\<close>

record ListeningModule =
  content_lm :: "ListeningTestContent option"
  loadingStep :: string
  errorMsg_lm :: "string option"
  audioContextRef :: bool
  audioBufferRef :: "real list option"

definition initialListeningModule :: ListeningModule where
  "initialListeningModule =
     \<lparr>content_lm = None, loadingStep = ''initializing'', errorMsg_lm = None,
      audioContextRef = False, audioBufferRef = None\<rparr>"

text \<open>
  \<open>decode\<close> is \<open>atob\<close> and a copy into a \<open>Uint8Array\<close>; \<open>atob\<close> is the browser's and is a
  parameter: \<open>None\<close> where it raises InvalidCharacterError.
\<close>

definition decode :: "(string \<Rightarrow> byte list option) \<Rightarrow> string \<Rightarrow> rejection + byte list" where
  "decode atob base64 =
     (case atob base64 of None \<Rightarrow> Inl InvalidCharacterError | Some bytes \<Rightarrow> Inr bytes)"

fun decodeAll :: "(string \<Rightarrow> byte list option) \<Rightarrow> string list \<Rightarrow> rejection + byte list list" where
  "decodeAll atob [] = Inr []"
| "decodeAll atob (base64 # rest) =
     (case decode atob base64 of
        Inl e \<Rightarrow> Inl e
      | Inr bytes \<Rightarrow> (case decodeAll atob rest of Inl e \<Rightarrow> Inl e | Inr others \<Rightarrow> Inr (bytes # others)))"

text \<open>
  \<open>initTest\<close>, run to completion. \<open>catchInit\<close> is its \<open>catch\<close> block; when that block itself
  raises, the hooks stay as they are. \<open>processAudio\<close> is the part of the \<open>try\<close> block after
  the content and the audio strings are known.
\<close>

definition catchInit :: "rejection \<Rightarrow> ListeningModule \<Rightarrow> ListeningModule" where
  "catchInit e m =
     (case messageOr e ''Failed to load listening test.'' of
        None \<Rightarrow> m
      | Some msg \<Rightarrow> m\<lparr>errorMsg_lm := Some msg, loadingStep := ''error''\<rparr>)"

definition processAudio ::
  "(string \<Rightarrow> byte list option) \<Rightarrow> ListeningTestContent \<Rightarrow> string list \<Rightarrow> ListeningModule
     \<Rightarrow> ListeningModule" where
  "processAudio atob testContent audioBase64Results m =
     (let m1 = m\<lparr>loadingStep := ''processing''\<rparr> in
      case decodeAll atob audioBase64Results of
        Inl e \<Rightarrow> catchInit e m1
      | Inr audioSegments \<Rightarrow>
          (case concatenateRawAudio audioSegments 2 24000 of
             Inl e \<Rightarrow> catchInit e m1
           | Inr combinedRawBytes \<Rightarrow>
               (let m2 = m1\<lparr>content_lm := Some testContent, audioContextRef := True\<rparr> in
                case decodeAudioData combinedRawBytes of
                  Inl e \<Rightarrow> catchInit e m2
                | Inr buffer \<Rightarrow> m2\<lparr>audioBufferRef := Some buffer, loadingStep := ''ready''\<rparr>)))"

definition initTest ::
  "(ListeningTestContent \<times> string list) option \<Rightarrow> (nat \<Rightarrow> js_error + ListeningTestContent)
     \<Rightarrow> (nat \<Rightarrow> nat \<Rightarrow> js_error + string option) \<Rightarrow> (nat \<Rightarrow> nat)
     \<Rightarrow> (string \<Rightarrow> byte list option) \<Rightarrow> ListeningModule \<Rightarrow> ListeningModule" where
  "initTest preloadedData scriptOp tts settleTime atob m =
     (let m0 = m\<lparr>errorMsg_lm := None\<rparr> in
      case preloadedData of
        Some (testContent, audioBase64Results) \<Rightarrow>
          processAudio atob testContent audioBase64Results (m0\<lparr>loadingStep := ''processing''\<rparr>)
      | None \<Rightarrow>
          (let m1 = m0\<lparr>loadingStep := ''scripting''\<rparr> in
           case generateListeningTestScript scriptOp of
             Inl e \<Rightarrow> catchInit e m1
           | Inr testContent \<Rightarrow>
               (let m2 = m1\<lparr>loadingStep := ''synthesizing''\<rparr> in
                case synthesizeParts tts settleTime testContent of
                  Inl e \<Rightarrow> catchInit e m2
                | Inr audioBase64Results \<Rightarrow>
                    processAudio atob testContent audioBase64Results m2)))"




text \<open>
  ReadingModule, WritingModule and SpeakingModule load in the same way, on three hooks:
  the content (\<open>content\<close>, \<open>task\<close>), \<open>loading\<close> and the load error (\<open>error\<close>, \<open>initError\<close>).
  \<open>moduleInit\<close> gives the initial values of the hooks. \<open>fetchStart\<close> is \<open>fetchTest\<close> or
  \<open>fetchTask\<close> up to its \<open>await\<close>, \<open>True\<close> in the second component when it calls the
  generator. \<open>mountEffect\<close> is the effect that runs on mount.
\<close>

record 'c FetchModule =
  content :: "'c option"
  loading :: bool
  error :: "string option"






text \<open>
  Concrete inputs: an operation that resolves to \<open>v\<close> on every call, a provider whose audio
  calls for part \<open>k\<close> always throw \<open>e\<close> while those for the other parts answer \<open>d\<close>, and
  listening contents of two and of three parts.
\<close>

definition alwaysResolves :: "'a \<Rightarrow> nat \<Rightarrow> js_error + 'a" where
  "alwaysResolves v n = Inr v"

definition ttsFailingAt :: "nat \<Rightarrow> js_error \<Rightarrow> string \<Rightarrow> nat \<Rightarrow> nat \<Rightarrow> js_error + string option" where
  "ttsFailingAt k e d index = (if index = k then alwaysFails e else alwaysResolves (Some d))"


definition threeParts :: ListeningTestContent where
  "threeParts =
     \<lparr>parts_l = sampleParts @ sampleParts @ sampleParts, fullScript = ''Teil'',
      audioBase64 = None\<rparr>"

section \<open>Properties of the executor\<close>

lemma invocations_append: "invocations (xs @ ys) = invocations xs + invocations ys"
  by (induction xs rule: invocations.induct) auto

lemma totalSleep_append: "totalSleep (xs @ ys) = totalSleep xs + totalSleep ys"
  by (induction xs rule: totalSleep.induct) auto

lemma backoff_same: "backoff bd k k = []"
  by (simp add: backoff_def)

lemma backoff_step:
  "i < k \<Longrightarrow> backoff bd i k = Invoked # Slept (bd * 2 ^ i) # backoff bd (Suc i) k"
  by (simp add: backoff_def upt_conv_Cons)

lemma backoff_snoc:
  "i \<le> k \<Longrightarrow> backoff bd i (Suc k) = backoff bd i k @ [Invoked, Slept (bd * 2 ^ k)]"
  by (simp add: backoff_def)

lemma invocations_backoff: "i \<le> k \<Longrightarrow> invocations (backoff bd i k) = k - i"
  by (induction k) (auto simp: backoff_same backoff_snoc invocations_append le_Suc_eq Suc_diff_le)

lemma totalSleep_backoff: "totalSleep (backoff bd 0 k) = (\<Sum>j<k. bd * 2 ^ j)"
  by (induction k) (auto simp: backoff_same backoff_snoc totalSleep_append)

text \<open>
  While the attempts \<open>i\<close>..\<open>k - 1\<close> fail with transient errors and attempts remain, the loop
  sleeps after each of them and arrives at attempt \<open>k\<close>.
\<close>

lemma loop_advance:
  "i \<le> k \<Longrightarrow> k < retries \<Longrightarrow> \<forall>j. i \<le> j \<and> j < k \<longrightarrow> transientAt operation j \<Longrightarrow>
   invocations tr = i \<Longrightarrow>
   \<exists>le'. runWithRetry_loop operation retries bd i le tr =
         runWithRetry_loop operation retries bd k le' (tr @ backoff bd i k)"
proof (induction "k - i" arbitrary: i le tr)
  case 0
  then have "i = k" by simp
  then show ?case by (auto simp: backoff_same)
next
  case (Suc d)
  then have ik: "i < k" by simp
  with Suc.prems have "transientAt operation i" by simp
  then obtain e msg where e: "operation i = Inl e" "errorMsg e = Some msg" "isTransient msg"
    by (auto simp: transientAt_def transientError_def split: sum.splits option.splits)
  have step: "runWithRetry_loop operation retries bd i le tr =
      runWithRetry_loop operation retries bd (Suc i) (Some e)
        (tr @ [Invoked, Slept (bd * 2 ^ i)])"
    using ik Suc.prems e by (subst runWithRetry_loop.simps) auto
  have "\<exists>le'. runWithRetry_loop operation retries bd (Suc i) (Some e)
                (tr @ [Invoked, Slept (bd * 2 ^ i)]) =
      runWithRetry_loop operation retries bd k le'
        ((tr @ [Invoked, Slept (bd * 2 ^ i)]) @ backoff bd (Suc i) k)"
    using Suc.hyps Suc.prems ik
    by (intro Suc.hyps(1)) (auto simp: invocations_append)
  with step show ?case using ik by (simp add: backoff_step)
qed

lemma loop_resolves:
  assumes "k < retries" "\<forall>j<k. transientAt operation j" "operation k = Inr v"
  shows "runWithRetry operation retries bd = (Inr v, backoff bd 0 k @ [Invoked])"
proof -
  obtain le' where "runWithRetry_loop operation retries bd 0 None [] =
      runWithRetry_loop operation retries bd k le' ([] @ backoff bd 0 k)"
    using loop_advance [of 0 k retries operation "[]" bd None] assms by auto
  moreover have "runWithRetry_loop operation retries bd k le' (backoff bd 0 k) =
      (Inr v, backoff bd 0 k @ [Invoked])"
    using assms by (subst runWithRetry_loop.simps) (simp add: invocations_backoff)
  ultimately show ?thesis by (simp add: runWithRetry_def)
qed

lemma loop_rejects:
  assumes "k < retries" "\<forall>j<k. transientAt operation j" "operation k = Inl e"
    and "errorMsg e = Some msg" "\<not> isTransient msg \<or> k = retries - 1"
  shows "runWithRetry operation retries bd = (Inl (Rejected e), backoff bd 0 k @ [Invoked])"
proof -
  obtain le' where "runWithRetry_loop operation retries bd 0 None [] =
      runWithRetry_loop operation retries bd k le' ([] @ backoff bd 0 k)"
    using loop_advance [of 0 k retries operation "[]" bd None] assms by auto
  moreover have "runWithRetry_loop operation retries bd k le' (backoff bd 0 k) =
      (Inl (Rejected e), backoff bd 0 k @ [Invoked])"
    using assms by (subst runWithRetry_loop.simps) (auto simp: invocations_backoff)
  ultimately show ?thesis by (simp add: runWithRetry_def)
qed




text \<open>
  C1. Run with \<open>retries\<close> attempts and base delay \<open>baseDelay\<close> (3 and 1500 by default):
  \<^item> an operation that fails with transient-classified errors exactly \<open>k < retries\<close> times
    and then succeeds makes \<open>runWithRetry\<close> return the success after exactly \<open>k + 1\<close>
    invocations, having slept \<open>baseDelay * 2 ^ i\<close> after failure \<open>i\<close>, in total the sum of
    \<open>baseDelay * 2 ^ i\<close> for \<open>i < k\<close>;
  \<^item> an operation that fails transiently on all \<open>retries\<close> attempts makes it fail, with the
    last error, after exactly \<open>retries\<close> invocations, and the last event of the run is the
    final invocation: no sleep follows it;
  \<^item> a permanent-classified error at attempt \<open>k\<close> is propagated at once: the run ends with
    that invocation, no sleep and no invocation after it.
\<close>

theorem runWithRetry_backoff:
  "(k < retries \<and> (\<forall>j<k. transientAt operation j) \<and> operation k = Inr v \<longrightarrow>
      runWithRetry operation retries baseDelay = (Inr v, backoff baseDelay 0 k @ [Invoked]) \<and>
      invocations (snd (runWithRetry operation retries baseDelay)) = k + 1 \<and>
      totalSleep (snd (runWithRetry operation retries baseDelay)) = (\<Sum>i<k. baseDelay * 2 ^ i))
   \<and> (0 < retries \<and> (\<forall>j<retries. transientAt operation j) \<and>
       operation (retries - 1) = Inl e \<longrightarrow>
      runWithRetry operation retries baseDelay =
        (Inl (Rejected e), backoff baseDelay 0 (retries - 1) @ [Invoked]) \<and>
      invocations (snd (runWithRetry operation retries baseDelay)) = retries \<and>
      last (snd (runWithRetry operation retries baseDelay)) = Invoked)
   \<and> (k < retries \<and> (\<forall>j<k. transientAt operation j) \<and> operation k = Inl e' \<and>
       permanentError e' \<longrightarrow>
      runWithRetry operation retries baseDelay =
        (Inl (Rejected e'), backoff baseDelay 0 k @ [Invoked]) \<and>
      invocations (snd (runWithRetry operation retries baseDelay)) = k + 1 \<and>
      last (snd (runWithRetry operation retries baseDelay)) = Invoked)"
proof (intro conjI impI)
  assume a: "k < retries \<and> (\<forall>j<k. transientAt operation j) \<and> operation k = Inr v"
  then have r: "runWithRetry operation retries baseDelay =
      (Inr v, backoff baseDelay 0 k @ [Invoked])"
    by (intro loop_resolves) auto
  show "runWithRetry operation retries baseDelay = (Inr v, backoff baseDelay 0 k @ [Invoked])"
    by (rule r)
  show "invocations (snd (runWithRetry operation retries baseDelay)) = k + 1"
    by (simp add: r invocations_append invocations_backoff)
  show "totalSleep (snd (runWithRetry operation retries baseDelay)) =
      (\<Sum>i<k. baseDelay * 2 ^ i)"
    by (simp add: r totalSleep_append totalSleep_backoff)
next
  assume a: "0 < retries \<and> (\<forall>j<retries. transientAt operation j) \<and>
      operation (retries - 1) = Inl e"
  then have "transientAt operation (retries - 1)" by simp
  with a obtain msg where "errorMsg e = Some msg"
    by (auto simp: transientAt_def transientError_def split: option.splits)
  with a have r: "runWithRetry operation retries baseDelay =
        (Inl (Rejected e), backoff baseDelay 0 (retries - 1) @ [Invoked])"
    by (intro loop_rejects [where msg = msg]) auto
  show "runWithRetry operation retries baseDelay =
        (Inl (Rejected e), backoff baseDelay 0 (retries - 1) @ [Invoked])"
    by (rule r)
  show "invocations (snd (runWithRetry operation retries baseDelay)) = retries"
    using a by (simp add: r invocations_append invocations_backoff)
  show "last (snd (runWithRetry operation retries baseDelay)) = Invoked"
    by (simp add: r)
next
  assume a: "k < retries \<and> (\<forall>j<k. transientAt operation j) \<and> operation k = Inl e' \<and>
       permanentError e'"
  then obtain msg where "errorMsg e' = Some msg" "\<not> isTransient msg"
    by (auto simp: permanentError_def split: option.splits)
  with a have r: "runWithRetry operation retries baseDelay =
        (Inl (Rejected e'), backoff baseDelay 0 k @ [Invoked])"
    by (intro loop_rejects [where msg = msg]) auto
  show "runWithRetry operation retries baseDelay =
        (Inl (Rejected e'), backoff baseDelay 0 k @ [Invoked])"
    by (rule r)
  show "invocations (snd (runWithRetry operation retries baseDelay)) = k + 1"
    by (simp add: r invocations_append invocations_backoff)
  show "last (snd (runWithRetry operation retries baseDelay)) = Invoked"
    by (simp add: r)
qed

theorem runWithRetry_backoff_witness:
  "runWithRetry (failsThenResolves 2 (ThrownObject (Some ''503 Service Unavailable'') None)
       (7::nat)) 3 1500
     = (Inr 7, [Invoked, Slept 1500, Invoked, Slept 3000, Invoked])
   \<and> totalSleep (snd (runWithRetry (failsThenResolves 2
         (ThrownObject (Some ''503 Service Unavailable'') None) (7::nat)) 3 1500)) = 4500
   \<and> (runWithRetry (alwaysFails (ThrownObject (Some ''503 Service Unavailable'') None)) 3 1500
        :: (rejection + nat) \<times> event list)
     = (Inl (Rejected (ThrownObject (Some ''503 Service Unavailable'') None)),
        [Invoked, Slept 1500, Invoked, Slept 3000, Invoked])
   \<and> (runWithRetry (alwaysFails (ThrownObject (Some ''No audio data'') None)) 3 1500
        :: (rejection + nat) \<times> event list)
     = (Inl (Rejected (ThrownObject (Some ''No audio data'') None)), [Invoked])"
proof -
  let ?t = "ThrownObject (Some ''503 Service Unavailable'') None"
  let ?p = "ThrownObject (Some ''No audio data'') None"
  have t: "transientError ?t"
    by (simp add: transientError_def isTransient_def toLowerCase_def toLowerChar_def)
  have p: "permanentError ?p"
    by (simp add: permanentError_def isTransient_def toLowerCase_def toLowerChar_def)
  have b: "backoff 1500 0 2 = [Invoked, Slept 1500, Invoked, Slept 3000]"
    "backoff 1500 0 0 = []"
    by (simp_all add: backoff_def upt_conv_Cons)
  have s: "(\<Sum>i<2. 1500 * 2 ^ i) = (4500::nat)"
    by (simp add: lessThan_nat_numeral lessThan_Suc)
  show ?thesis
    using
      runWithRetry_backoff [of 2 3 "failsThenResolves 2 ?t (7::nat)" 7 1500 undefined undefined]
      runWithRetry_backoff [of 0 3 "alwaysFails ?t :: nat \<Rightarrow> js_error + nat" undefined 1500 ?t
        undefined]
      runWithRetry_backoff [of 0 3 "alwaysFails ?p :: nat \<Rightarrow> js_error + nat" undefined 1500
        undefined ?p]
      t p b s
    by (simp add: transientAt_def failsThenResolves_def alwaysFails_def)
qed




section \<open>Properties of the audio assembly\<close>

lemma typed_array_set_zeros:
  "length seg \<le> m \<Longrightarrow>
   typed_array_set (pre @ replicate m 0) seg (length pre) =
     Inr (pre @ seg @ replicate (m - length seg) 0)"
  by (simp add: typed_array_set_def)

lemma assembled_Cons:
  "rest \<noteq> [] \<Longrightarrow> assembled gap (seg # rest) = seg @ replicate gap 0 @ assembled gap rest"
  by (cases rest) auto

lemma forEach_segment_assembled:
  "i + length rest = n \<Longrightarrow> length (assembled gap rest) \<le> m \<Longrightarrow>
   forEach_segment rest i n gap (pre @ replicate m 0) (length pre) =
     Inr (pre @ assembled gap rest @ replicate (m - length (assembled gap rest)) 0)"
proof (induction rest arbitrary: i pre m)
  case Nil
  then show ?case by simp
next
  case (Cons seg rest)
  show ?case
  proof (cases "rest = []")
    case True
    with Cons.prems show ?thesis
      by (simp add: typed_array_set_zeros)
  next
    case False
    with Cons.prems have fit: "length seg + gap + length (assembled gap rest) \<le> m"
      by (simp add: assembled_Cons)
    have more: "int i < int n - 1"
      using False Cons.prems(1) by (cases rest) auto
    have split: "pre @ seg @ replicate (m - length seg) 0 =
        (pre @ seg @ replicate gap 0) @ replicate (m - length seg - gap) 0"
      using fit by (simp add: replicate_add [symmetric])
    have "forEach_segment rest (i + 1) n gap
            ((pre @ seg @ replicate gap 0) @ replicate (m - length seg - gap) 0)
            (length (pre @ seg @ replicate gap 0)) =
          Inr ((pre @ seg @ replicate gap 0) @ assembled gap rest @
               replicate (m - length seg - gap - length (assembled gap rest)) 0)"
      using Cons.prems(1) fit by (intro Cons.IH) auto
    then show ?thesis
      using fit more False
      by (simp add: typed_array_set_zeros split assembled_Cons add.assoc)
  qed
qed

lemma foldl_lengths: "foldl (\<lambda>acc seg. acc + length seg) a segs = a + sum_list (map length segs)"
  by (induction segs arbitrary: a) auto

lemma length_assembled:
  "length (assembled gap segs) = sum_list (map length segs) + (length segs - 1) * gap"
  by (induction gap segs rule: assembled.induct) auto

lemma concatenateRawAudio_assembled:
  "concatenateRawAudio segments s r = Inr (assembled (s * r * 2) segments)"
proof -
  have n: "nat (max 0 (int (length segments) - 1)) = length segments - 1"
    by simp
  have "forEach_segment segments 0 (length segments) (s * r * 2)
          ([] @ replicate (length (assembled (s * r * 2) segments)) 0) (length ([] :: byte list)) =
        Inr ([] @ assembled (s * r * 2) segments @
          replicate (length (assembled (s * r * 2) segments) -
                     length (assembled (s * r * 2) segments)) 0)"
    by (intro forEach_segment_assembled) auto
  then show ?thesis
    unfolding concatenateRawAudio_def Let_def n
    by (simp add: foldl_lengths length_assembled)
qed

lemma segmentOffset_0: "segmentOffset gap segs 0 = 0"
  by (simp add: segmentOffset_def)

lemma segmentOffset_Suc:
  "segmentOffset gap (seg # rest) (Suc i) = length seg + gap + segmentOffset gap rest i"
  by (simp add: segmentOffset_def)

lemma assembled_segment:
  "i < length segs \<Longrightarrow>
   take (length (segs ! i)) (drop (segmentOffset gap segs i) (assembled gap segs)) = segs ! i"
proof (induction segs arbitrary: i)
  case Nil
  then show ?case by simp
next
  case (Cons seg rest)
  show ?case
  proof (cases i)
    case 0
    then show ?thesis
      by (cases rest) (simp_all add: segmentOffset_0)
  next
    case (Suc j)
    with Cons.prems have j: "j < length rest" and ne: "rest \<noteq> []" by auto
    then show ?thesis
      using Cons.IH [OF j] Suc by (simp add: assembled_Cons segmentOffset_Suc)
  qed
qed

lemma assembled_gap:
  "i + 1 < length segs \<Longrightarrow> j < gap \<Longrightarrow>
   assembled gap segs ! (segmentOffset gap segs i + length (segs ! i) + j) = 0"
proof (induction segs arbitrary: i)
  case Nil
  then show ?case by simp
next
  case (Cons seg rest)
  then have ne: "rest \<noteq> []" by auto
  show ?case
  proof (cases i)
    case 0
    with Cons.prems ne show ?thesis
      by (simp add: assembled_Cons segmentOffset_0 nth_append)
  next
    case (Suc k)
    with Cons.prems have k: "k + 1 < length rest" by simp
    have "length seg + gap + segmentOffset gap rest k + length (rest ! k) + j =
        length seg + (gap + (segmentOffset gap rest k + length (rest ! k) + j))"
      by simp
    then show ?thesis
      using Cons.IH [OF k Cons.prems(2)] Suc ne
      by (simp add: assembled_Cons segmentOffset_Suc nth_append add.assoc)
  qed
qed

text \<open>
  C3. For a non-empty list of segments, silence of \<open>s\<close> seconds and sample rate \<open>r\<close>, the
  assembly returns a buffer whose length is the sum of the segments' lengths plus
  \<open>(n - 1) * (s * r * 2)\<close>, no gap at all for a single segment; segment \<open>i\<close> is found
  unchanged at the offset made of the lengths of the segments before it and \<open>i\<close> gaps,
  and every byte of every gap between two segments is zero.
\<close>

theorem concatenateRawAudio_layout:
  assumes "segments \<noteq> []"
  shows "\<exists>buf. concatenateRawAudio segments s r = Inr buf \<and>
     length buf = sum_list (map length segments) + (length segments - 1) * (s * r * 2) \<and>
     (length segments = 1 \<longrightarrow> length buf = sum_list (map length segments)) \<and>
     (\<forall>i<length segments.
        take (length (segments ! i)) (drop (segmentOffset (s * r * 2) segments i) buf) =
          segments ! i) \<and>
     (\<forall>i j. i + 1 < length segments \<and> j < s * r * 2 \<longrightarrow>
        buf ! (segmentOffset (s * r * 2) segments i + length (segments ! i) + j) = 0)"
  by (simp add: concatenateRawAudio_assembled length_assembled assembled_segment assembled_gap)

theorem concatenateRawAudio_layout_witness:
  "[[1, 2], [3, 4, 5, 6], [7, 8 :: byte]] \<noteq> []
   \<and> (\<exists>buf. concatenateRawAudio [[1, 2], [3, 4, 5, 6], [7, 8]] 1 1 = Inr buf \<and>
        buf = [1, 2, 0, 0, 3, 4, 5, 6, 0, 0, 7, 8] \<and>
        length buf = sum_list (map length [[1, 2], [3, 4, 5, 6], [7, 8 :: byte]]) + 2 * 2)"
proof -
  let ?segs = "[[1, 2], [3, 4, 5, 6], [7, 8]] :: byte list list"
  have ne: "?segs \<noteq> []" by simp
  obtain buf where buf: "concatenateRawAudio ?segs 1 1 = Inr buf"
    and len: "length buf = sum_list (map length ?segs) + (length ?segs - 1) * (1 * 1 * 2)"
    using concatenateRawAudio_layout [OF ne, of 1 1] by blast
  have "concatenateRawAudio ?segs 1 1 = Inr [1, 2, 0, 0, 3, 4, 5, 6, 0, 0, 7, 8]"
    by (simp add: concatenateRawAudio_assembled numeral_2_eq_2)
  with buf have "buf = [1, 2, 0, 0, 3, 4, 5, 6, 0, 0, 7, 8]"
    by simp
  with buf len show ?thesis
    by simp
qed

lemma fill_channel_map:
  "i \<le> length d \<Longrightarrow> length cd = length d \<Longrightarrow>
   fill_channel d i (length d) cd = take i cd @ map (\<lambda>v. real_of_int v / 32768) (drop i d)"
proof (induction d i "length d" cd rule: fill_channel.induct)
  case (1 d i cd)
  show ?case
  proof (cases "i < length d")
    case True
    have "fill_channel d i (length d) cd =
        fill_channel d (i + 1) (length d) (cd[i := real_of_int (d ! i) / 32768])"
      using True by (subst fill_channel.simps) simp
    also have "\<dots> = take (i + 1) (cd[i := real_of_int (d ! i) / 32768]) @
        map (\<lambda>v. real_of_int v / 32768) (drop (i + 1) d)"
      using True "1.prems" by (intro "1.hyps") auto
    also have "\<dots> = take i cd @ map (\<lambda>v. real_of_int v / 32768) (drop i d)"
      using True "1.prems"
      by (simp add: take_Suc_conv_app_nth Cons_nth_drop_Suc [symmetric])
    finally show ?thesis .
  next
    case False
    with "1.prems" have "i = length d" by simp
    then show ?thesis
      using "1.prems" by (subst fill_channel.simps) simp
  qed
qed

lemma length_int16_pairs: "length (int16_pairs data) = length data div 2"
  by (induction data rule: int16_pairs.induct) auto

lemma int16_of_bytes_range: "- 32768 \<le> int16_of_bytes lo hi \<and> int16_of_bytes lo hi < 32768"
proof -
  define u v where "u = uint lo" and "v = uint hi"
  have "0 \<le> u" "u < 256" "0 \<le> v" "v < 256"
    using uint_bounded [of lo] uint_bounded [of hi] by (simp_all add: u_def v_def)
  then show ?thesis
    unfolding int16_of_bytes_def Let_def u_def [symmetric] v_def [symmetric] by auto
qed

lemma int16_pairs_range: "v \<in> set (int16_pairs data) \<Longrightarrow> - 32768 \<le> v \<and> v < 32768"
  by (induction data rule: int16_pairs.induct) (auto simp: int16_of_bytes_range)

lemma decodeAudioData_even:
  assumes "even (length data)" "data \<noteq> []"
  shows "decodeAudioData data = Inr (map (\<lambda>v. real_of_int v / 32768) (int16_pairs data))"
proof -
  from assms have "2 \<le> length data"
    by (cases data; cases "tl data") auto
  then have pos: "length (int16_pairs data) \<noteq> 0"
    by (simp add: length_int16_pairs)
  have "fill_channel (int16_pairs data) 0 (length (int16_pairs data))
          (replicate (length (int16_pairs data)) 0) =
        take 0 (replicate (length (int16_pairs data)) 0) @
          map (\<lambda>v. real_of_int v / 32768) (drop 0 (int16_pairs data))"
    by (intro fill_channel_map) auto
  then show ?thesis
    using assms pos
    by (simp add: decodeAudioData_def Int16Array_def createBuffer_def Let_def even_iff_mod_2_eq_zero)
qed




text \<open>
  C8. Decoding divides each signed 16-bit little-endian sample by 32768: the sample
  \<open>-32768\<close> (bytes \<open>00 80\<close>) becomes exactly \<open>-1\<close>, the sample \<open>0\<close> becomes exactly \<open>0\<close>, and the
  sample \<open>32767\<close> (bytes \<open>FF 7F\<close>) becomes a value strictly between \<open>0.999\<close> and \<open>1\<close>. In
  general a buffer of positive even length decodes to its samples divided by 32768, each
  of them in the interval from \<open>-1\<close> up to, not including, \<open>1\<close>.
\<close>

theorem decodeAudioData_normalizes:
  "int16_of_bytes 0x00 0x80 = - 32768 \<and> decodeAudioData [0x00, 0x80] = Inr [- 1]
   \<and> int16_of_bytes 0x00 0x00 = 0 \<and> decodeAudioData [0x00, 0x00] = Inr [0]
   \<and> int16_of_bytes 0xFF 0x7F = 32767
   \<and> (\<exists>x. decodeAudioData [0xFF, 0x7F] = Inr [x] \<and> 0.999 < x \<and> x < 1)
   \<and> (even (length data) \<and> data \<noteq> [] \<longrightarrow>
        decodeAudioData data = Inr (map (\<lambda>v. real_of_int v / 32768) (int16_pairs data)) \<and>
        (\<forall>x \<in> set (map (\<lambda>v. real_of_int v / 32768) (int16_pairs data)). - 1 \<le> x \<and> x < 1))"
proof (intro conjI impI)
  show "int16_of_bytes 0x00 0x80 = - 32768" "int16_of_bytes 0x00 0x00 = 0"
    "int16_of_bytes 0xFF 0x7F = 32767"
    by (simp_all add: int16_of_bytes_def)
  show "decodeAudioData [0x00, 0x80] = Inr [- 1]" "decodeAudioData [0x00, 0x00] = Inr [0]"
    by (simp_all add: decodeAudioData_even int16_of_bytes_def)
  have "decodeAudioData [0xFF, 0x7F] = Inr [32767 / 32768]"
    by (simp add: decodeAudioData_even int16_of_bytes_def)
  then show "\<exists>x. decodeAudioData [0xFF, 0x7F] = Inr [x] \<and> 0.999 < x \<and> x < 1"
    by (intro exI [of _ "32767 / 32768"]) simp
next
  assume "even (length data) \<and> data \<noteq> []"
  then show "decodeAudioData data =
      Inr (map (\<lambda>v. real_of_int v / 32768) (int16_pairs data))"
    by (simp add: decodeAudioData_even)
next
  show "\<forall>x \<in> set (map (\<lambda>v. real_of_int v / 32768) (int16_pairs data)). - 1 \<le> x \<and> x < 1"
  proof
    fix x assume "x \<in> set (map (\<lambda>v. real_of_int v / 32768) (int16_pairs data))"
    then obtain v where v: "v \<in> set (int16_pairs data)" and x: "x = real_of_int v / 32768"
      by auto
    from int16_pairs_range [OF v] have "- 32768 \<le> real_of_int v" "real_of_int v < 32768"
      by linarith+
    with x show "- 1 \<le> x \<and> x < 1"
      by simp
  qed
qed

theorem decodeAudioData_normalizes_witness:
  "even (length [0xFF, 0x7F, 0x00, 0x80 :: byte]) \<and> [0xFF, 0x7F, 0x00, 0x80 :: byte] \<noteq> []
   \<and> decodeAudioData [0xFF, 0x7F, 0x00, 0x80] = Inr [32767 / 32768, - 1]"
  using decodeAudioData_normalizes [of "[0xFF, 0x7F, 0x00, 0x80]"]
  by (simp add: int16_of_bytes_def)




section \<open>Properties of the module scores\<close>












section \<open>Properties of the session orchestrator\<close>

text \<open>
  C2. The session starts at \<open>HOME\<close> with all scores zero. After "Start Mock Test", reporting
  80, 70, 90 and 60 through the completion callback of the module mounted at each moment
  passes through \<open>TEST_READING\<close>, \<open>TEST_LISTENING\<close>, \<open>TEST_WRITING\<close>, \<open>TEST_SPEAKING\<close> and
  ends at \<open>USER_DETAILS_FORM\<close> with the scores 80, 70, 90, 60. Restarting there gives
  the initial state back; restarting from any state \<open>a\<close> gives \<open>HOME\<close>, all scores zero,
  the user details reset and every preloaded slot empty.
\<close>

theorem session_run_and_restart:
  "state initialApp = HOME
   \<and> scores initialApp = \<lparr>reading = 0, listening = 0, writing = 0, speaking = 0\<rparr>
   \<and> state (startMockTest initialApp) = TEST_READING
   \<and> map_option (map state) (reportAll (startMockTest initialApp) [80, 70, 90, 60]) =
       Some [TEST_READING, TEST_LISTENING, TEST_WRITING, TEST_SPEAKING, USER_DETAILS_FORM]
   \<and> map_option (scores \<circ> last) (reportAll (startMockTest initialApp) [80, 70, 90, 60]) =
       Some \<lparr>reading = 80, listening = 70, writing = 90, speaking = 60\<rparr>
   \<and> map_option (restart \<circ> last) (reportAll (startMockTest initialApp) [80, 70, 90, 60]) =
       Some initialApp
   \<and> state (restart a) = HOME
   \<and> scores (restart a) = \<lparr>reading = 0, listening = 0, writing = 0, speaking = 0\<rparr>
   \<and> userDetails (restart a) = \<lparr>name = '''', phone = '''', language = ''Malayalam''\<rparr>
   \<and> preloadedReading (restart a) = None \<and> preloadedListening (restart a) = None
   \<and> preloadedWriting (restart a) = None \<and> preloadedSpeaking (restart a) = None"
  by (simp add: initialApp_def startMockTest_def updateScore_def restart_def)



section \<open>Properties of the listening fetch and of prefetching\<close>

lemma firstRejection_None: "firstRejection ps = None \<Longrightarrow> \<forall>p \<in> set ps. \<not> isl (snd p)"
  by (induction ps rule: firstRejection.induct) (auto split: option.splits if_splits)

lemma firstRejection_Some:
  "firstRejection ps = Some (t, e) \<Longrightarrow> (t, Inl e) \<in> set ps"
  by (induction ps arbitrary: t e rule: firstRejection.induct)
     (auto split: option.splits if_splits)

lemma Promise_all_rejects:
  assumes "\<exists>p \<in> set ps. isl (snd p)"
  shows "\<exists>t e. Promise_all ps = Inl e \<and> (t, Inl e) \<in> set ps"
proof (cases "firstRejection ps")
  case None
  with assms show ?thesis
    using firstRejection_None by blast
next
  case (Some te)
  then obtain t e where "firstRejection ps = Some (t, e)"
    by (cases te) auto
  then show ?thesis
    using firstRejection_Some by (auto simp: Promise_all_def)
qed

lemma loop_rejection_has_message:
  "i < retries \<Longrightarrow> fst (runWithRetry_loop operation retries bd i le tr) = Inl r \<Longrightarrow>
   messageOr r fallback \<noteq> None"
proof (induction operation retries bd i le tr rule: runWithRetry_loop.induct)
  case (1 operation retries baseDelay i lastError tr)
  show ?case
  proof (cases "operation (invocations tr)")
    case (Inr v)
    with "1.prems" show ?thesis
      by (subst (asm) runWithRetry_loop.simps) simp
  next
    case (Inl err)
    show ?thesis
    proof (cases "errorMsg err")
      case None
      with Inl "1.prems" show ?thesis
        by (subst (asm) runWithRetry_loop.simps) auto
    next
      case (Some msg)
      then have obj: "messageOr (Rejected err) fallback \<noteq> None"
        by (cases err) auto
      show ?thesis
      proof (cases "isTransient msg \<and> int i < int retries - 1")
        case True
        then have "i + 1 < retries" by linarith
        moreover have "fst (runWithRetry_loop operation retries baseDelay (i + 1) (Some err)
            (tr @ [Invoked, Slept (baseDelay * 2 ^ i)])) = Inl r"
          using "1.prems" Inl Some True by (subst (asm) runWithRetry_loop.simps) simp
        ultimately show ?thesis
          using "1.IH" [OF "1.prems"(1) Inl Some] True by blast
      next
        case False
        with Inl Some "1.prems" obj show ?thesis
          by (subst (asm) runWithRetry_loop.simps) auto
      qed
    qed
  qed
qed

lemma runWithRetry_rejection_has_message:
  "fst (runWithRetry operation 3 1500) = Inl r \<Longrightarrow> messageOr r fallback \<noteq> None"
  unfolding runWithRetry_def by (rule loop_rejection_has_message [of 0 3]) simp_all

lemma synthesizeParts_rejects:
  assumes "\<exists>i<length (parts_l c). isl (generateAudioFromScript (tts i))"
  shows "\<exists>e. synthesizeParts tts settleTime c = Inl e \<and>
    messageOr e fallback \<noteq> None"
proof -
  let ?ps = "map (\<lambda>index. (settleTime index, generateAudioFromScript (tts index)))
                    [0..<length (parts_l c)]"
  from assms obtain i where i: "i < length (parts_l c)" "isl (generateAudioFromScript (tts i))"
    by blast
  then have "(settleTime i, generateAudioFromScript (tts i)) \<in> set ?ps"
    by auto
  with i have "\<exists>p \<in> set ?ps. isl (snd p)"
    by force
  then obtain t e where e: "Promise_all ?ps = Inl e" "(t, Inl e) \<in> set ?ps"
    using Promise_all_rejects by blast
  then obtain j where "generateAudioFromScript (tts j) = Inl e"
    by auto
  then have "messageOr e fallback \<noteq> None"
    unfolding generateAudioFromScript_def by (rule runWithRetry_rejection_has_message)
  with e show ?thesis
    by (auto simp: synthesizeParts_def)
qed

text \<open>
  C5. When the script has been generated and the audio synthesis of at least one part is
  rejected by its own \<open>runWithRetry\<close>, the whole listening fetch fails:
  \<open>preloadListeningTest\<close> is rejected, so no content with audio parts is returned, and
  \<open>initTest\<close> without preloaded data ends in the error step with the audio buffer and the
  content left as they were, so no buffer is built from the parts that were synthesized.
\<close>

theorem listening_fetch_all_or_nothing:
  assumes "generateListeningTestScript scriptOp = Inr testContent"
    and "\<exists>i<length (parts_l testContent). isl (generateAudioFromScript (tts i))"
  shows "isl (preloadListeningTest scriptOp tts settleTime)
    \<and> loadingStep (initTest None scriptOp tts settleTime atob m) = ''error''
    \<and> audioBufferRef (initTest None scriptOp tts settleTime atob m) = audioBufferRef m
    \<and> content_lm (initTest None scriptOp tts settleTime atob m) = content_lm m"
proof -
  obtain e where e: "synthesizeParts tts settleTime testContent = Inl e"
    "messageOr e ''Failed to load listening test.'' \<noteq> None"
    using synthesizeParts_rejects [OF assms(2)] by blast
  then obtain msg where "messageOr e ''Failed to load listening test.'' = Some msg"
    by auto
  with e assms(1) show ?thesis
    by (simp add: preloadListeningTest_def initTest_def catchInit_def)
qed

theorem listening_fetch_all_or_nothing_witness:
  "generateListeningTestScript (alwaysResolves threeParts) = Inr threeParts
   \<and> length (parts_l threeParts) = 3
   \<and> generateAudioFromScript
         (ttsFailingAt 1 (ThrownObject (Some ''400 Bad Request'') (Some ''{}'')) ''AAAA'' 1) =
       Inl (Rejected (ThrownObject (Some ''400 Bad Request'') (Some ''{}'')))
   \<and> isl (preloadListeningTest (alwaysResolves threeParts)
         (ttsFailingAt 1 (ThrownObject (Some ''400 Bad Request'') (Some ''{}'')) ''AAAA'') id)
   \<and> loadingStep (initTest None (alwaysResolves threeParts)
         (ttsFailingAt 1 (ThrownObject (Some ''400 Bad Request'') (Some ''{}'')) ''AAAA'') id
         Map.empty initialListeningModule) = ''error''
   \<and> audioBufferRef (initTest None (alwaysResolves threeParts)
         (ttsFailingAt 1 (ThrownObject (Some ''400 Bad Request'') (Some ''{}'')) ''AAAA'') id
         Map.empty initialListeningModule) = None"
proof -
  let ?e = "ThrownObject (Some ''400 Bad Request'') (Some ''{}'')"
  have b: "backoff 1500 0 0 = []"
    by (simp add: backoff_def)
  have s: "generateListeningTestScript (alwaysResolves threeParts) = Inr threeParts"
    using loop_resolves [of 0 3 "alwaysResolves threeParts" threeParts 1500]
    by (simp add: generateListeningTestScript_def alwaysResolves_def)
  have n: "length (parts_l threeParts) = 3"
    by (simp add: threeParts_def sampleParts_def)
  have "\<not> isTransient (toLowerCase ''400 Bad Request'')"
    by (simp add: isTransient_def toLowerCase_def toLowerChar_def)
  then have f: "generateAudioFromScript (ttsFailingAt 1 ?e ''AAAA'' 1) = Inl (Rejected ?e)"
    using loop_rejects [of 0 3 "\<lambda>n. Inl ?e :: js_error + string" ?e
        "toLowerCase ''400 Bad Request''" 1500]
    by (simp add: generateAudioFromScript_def ttsFailingAt_def alwaysFails_def)
  then have "\<exists>i<length (parts_l threeParts).
      isl (generateAudioFromScript (ttsFailingAt 1 ?e ''AAAA'' i))"
    using n by (intro exI [of _ 1]) simp
  from listening_fetch_all_or_nothing [OF s this, of id Map.empty initialListeningModule]
  show ?thesis
    using s n f by (simp add: initialListeningModule_def)
qed



end
